theory Spec2Isabelle
  imports Complex_Main "HOL-Library.FSet" "HOL-Library.Multiset" "HOL-Library.Char_ord"
    "HOL-Library.List_Lexorder"
begin

section \<open>Python values and errors\<close>

text \<open>
  The three modules (\<^verbatim>\<open>trec_eval.py\<close>, \<^verbatim>\<open>evaluate_map.py\<close>, \<^verbatim>\<open>ir_system.py\<close>) are
  embedded function by function. Python's \<^verbatim>\<open>float\<close> is modelled by \<^typ>\<open>real\<close>: the
  arithmetic is exact, rounding is not modelled. Python's \<^verbatim>\<open>/\<close> raises
  \<^verbatim>\<open>ZeroDivisionError\<close> on a zero divisor, \<^verbatim>\<open>math.log\<close> raises \<^verbatim>\<open>ValueError\<close> on a
  non-positive argument and a plain dictionary raises \<^verbatim>\<open>KeyError\<close> on a missing key; each
  raise is the \<open>Inl\<close> branch of a result.
\<close>

datatype py_error = ZeroDivisionError | KeyError string | ValueError

definition truediv :: "real \<Rightarrow> real \<Rightarrow> py_error + real" where
  "truediv x y = (if y = 0 then Inl ZeroDivisionError else Inr (x / y))"

definition math_log :: "real \<Rightarrow> py_error + real" where
  "math_log x = (if x \<le> 0 then Inl ValueError else Inr (ln x))"

text \<open>
  A dictionary whose iteration order matters is an association list in insertion order:
  \<open>dict_get\<close> is \<^verbatim>\<open>d.get(k)\<close>, \<open>dict_set\<close> is \<^verbatim>\<open>d[k] = v\<close> (the position of an existing
  key is kept, a new key goes to the end), \<open>dict_keys\<close> is \<^verbatim>\<open>d.keys()\<close>.
\<close>

type_synonym ('k, 'v) dict = "('k \<times> 'v) list"

definition dict_get :: "('k, 'v) dict \<Rightarrow> 'k \<Rightarrow> 'v option" where
  "dict_get d k = map_of d k"

fun dict_set :: "('k, 'v) dict \<Rightarrow> 'k \<Rightarrow> 'v \<Rightarrow> ('k, 'v) dict" where
  "dict_set [] k v = [(k, v)]"
| "dict_set ((k', v') # d) k v = (if k' = k then (k, v) # d else (k', v') # dict_set d k v)"

definition dict_keys :: "('k, 'v) dict \<Rightarrow> 'k list" where
  "dict_keys d = map fst d"

section \<open>trec\_eval.py: the metrics of one query\<close>

text \<open>
  A retrieved document is the tuple \<^verbatim>\<open>(doc_id, rank, score)\<close> that \<^verbatim>\<open>load_results\<close> appends;
  the rank is whatever integer the results file holds. The relevant documents of a query
  are a finite set of document ids.
\<close>

type_synonym retrieved_doc = "string \<times> int \<times> real"

text \<open>
  Lines 111--123 of \<^verbatim>\<open>calculate_metrics\<close>: the loop that fills \<^verbatim>\<open>precision_at_ranks\<close> and
  \<^verbatim>\<open>recall_at_ranks\<close>; \<open>i\<close> is the loop index, \<open>rel_ret\<close> the running count.
\<close>

fun ranks_loop ::
  "string fset \<Rightarrow> nat \<Rightarrow> retrieved_doc list \<Rightarrow> nat \<Rightarrow> nat \<Rightarrow> real list \<Rightarrow> real list
   \<Rightarrow> py_error + (nat \<times> real list \<times> real list)" where
  "ranks_loop relevant_docs num_relevant [] i rel_ret precision_at_ranks recall_at_ranks =
     Inr (rel_ret, precision_at_ranks, recall_at_ranks)"
| "ranks_loop relevant_docs num_relevant ((doc_id, rank, score) # rest) i rel_ret
       precision_at_ranks recall_at_ranks =
     (let rel_ret' = (if doc_id |\<in>| relevant_docs then rel_ret + 1 else rel_ret) in
      case truediv (real rel_ret') (real (i + 1)) of
        Inl e \<Rightarrow> Inl e
      | Inr precision \<Rightarrow>
         (case truediv (real rel_ret') (real num_relevant) of
            Inl e \<Rightarrow> Inl e
          | Inr recall \<Rightarrow>
              ranks_loop relevant_docs num_relevant rest (i + 1) rel_ret'
                (precision_at_ranks @ [precision]) (recall_at_ranks @ [recall])))"

text \<open>Lines 127--135: the Average Precision loop and the division that follows it.\<close>

fun ap_loop ::
  "string fset \<Rightarrow> retrieved_doc list \<Rightarrow> nat \<Rightarrow> nat \<Rightarrow> real \<Rightarrow> py_error + (nat \<times> real)" where
  "ap_loop relevant_docs [] i rel_found ap_sum = Inr (rel_found, ap_sum)"
| "ap_loop relevant_docs ((doc_id, rank, score) # rest) i rel_found ap_sum =
     (if doc_id |\<in>| relevant_docs then
        (case truediv (real (rel_found + 1)) (real (i + 1)) of
           Inl e \<Rightarrow> Inl e
         | Inr p \<Rightarrow> ap_loop relevant_docs rest (i + 1) (rel_found + 1) (ap_sum + p))
      else ap_loop relevant_docs rest (i + 1) rel_found ap_sum)"

definition average_precision :: "string fset \<Rightarrow> nat \<Rightarrow> retrieved_doc list \<Rightarrow> py_error + real" where
  "average_precision relevant_docs num_relevant retrieved_docs =
     (case ap_loop relevant_docs retrieved_docs 0 0 0 of
        Inl e \<Rightarrow> Inl e
      | Inr (rel_found, ap_sum) \<Rightarrow>
          if num_relevant > 0 then truediv ap_sum (real num_relevant) else Inr 0)"

text \<open>Lines 138--141 and 148: a list element under its length guard, else \<^verbatim>\<open>0.0\<close>.\<close>

definition precision_at :: "real list \<Rightarrow> nat \<Rightarrow> real" where
  "precision_at precision_at_ranks k =
     (if length precision_at_ranks > k then precision_at_ranks ! k else 0)"

definition final_recall_of :: "real list \<Rightarrow> real" where
  "final_recall_of recall_at_ranks =
     (if recall_at_ranks \<noteq> [] then last recall_at_ranks else 0)"

text \<open>
  Lines 151--159: R-precision. The index \<open>i\<close> of \<^verbatim>\<open>retrieved_docs[i]\<close> runs below
  \<^verbatim>\<open>min(num_relevant, len(retrieved_docs))\<close>, so the read is always in range.
\<close>

definition r_retrieved_count :: "string fset \<Rightarrow> nat \<Rightarrow> retrieved_doc list \<Rightarrow> nat" where
  "r_retrieved_count relevant_docs num_relevant retrieved_docs =
     fold (\<lambda>i r_retrieved.
             if fst (retrieved_docs ! i) |\<in>| relevant_docs then r_retrieved + 1 else r_retrieved)
          [0 ..< min num_relevant (length retrieved_docs)] 0"

definition r_prec :: "string fset \<Rightarrow> nat \<Rightarrow> retrieved_doc list \<Rightarrow> py_error + real" where
  "r_prec relevant_docs num_relevant retrieved_docs =
     (if num_relevant \<le> length retrieved_docs then
        truediv (real (r_retrieved_count relevant_docs num_relevant retrieved_docs))
                (real num_relevant)
      else Inr 0)"

text \<open>Lines 161--167: Reciprocal Rank; the loop stops at the first relevant document.\<close>

fun recip_rank :: "string fset \<Rightarrow> retrieved_doc list \<Rightarrow> py_error + real" where
  "recip_rank relevant_docs [] = Inr 0"
| "recip_rank relevant_docs ((doc_id, rank, score) # rest) =
     (if doc_id |\<in>| relevant_docs then truediv 1 (real_of_int rank)
      else recip_rank relevant_docs rest)"

text \<open>The dictionary stored under \<^verbatim>\<open>query_metrics[query_id]\<close> (lines 170--181).\<close>

record query_metric =
  qm_ap :: real
  qm_P_5 :: real
  qm_P_10 :: real
  qm_P_30 :: real
  qm_recall :: real
  qm_Rprec :: real
  qm_recip_rank :: real
  qm_num_rel :: nat
  qm_num_ret :: nat
  qm_num_rel_ret :: nat

text \<open>
  The body of the query loop from line 104 on, for a query that passed both \<^verbatim>\<open>continue\<close>
  tests. An exception of any block leaves the whole of \<^verbatim>\<open>calculate_metrics\<close>.
\<close>

definition query_body :: "string fset \<Rightarrow> retrieved_doc list \<Rightarrow> py_error + query_metric" where
  "query_body relevant_docs retrieved_docs =
     (let num_relevant = fcard relevant_docs;
          num_retrieved = length retrieved_docs in
      case ranks_loop relevant_docs num_relevant retrieved_docs 0 0 [] [] of
        Inl e \<Rightarrow> Inl e
      | Inr (rel_ret, precision_at_ranks, recall_at_ranks) \<Rightarrow>
     (case average_precision relevant_docs num_relevant retrieved_docs of
        Inl e \<Rightarrow> Inl e
      | Inr ap \<Rightarrow>
     (case r_prec relevant_docs num_relevant retrieved_docs of
        Inl e \<Rightarrow> Inl e
      | Inr rp \<Rightarrow>
     (case recip_rank relevant_docs retrieved_docs of
        Inl e \<Rightarrow> Inl e
      | Inr rr \<Rightarrow>
          Inr \<lparr> qm_ap = ap,
                qm_P_5 = precision_at precision_at_ranks 4,
                qm_P_10 = precision_at precision_at_ranks 9,
                qm_P_30 = precision_at precision_at_ranks 29,
                qm_recall = final_recall_of recall_at_ranks,
                qm_Rprec = rp,
                qm_recip_rank = rr,
                qm_num_rel = num_relevant,
                qm_num_ret = num_retrieved,
                qm_num_rel_ret = rel_ret \<rparr>))))"

section \<open>trec\_eval.py: the query loop, the report and main\<close>

text \<open>
  \<^verbatim>\<open>qrels\<close> is a \<^verbatim>\<open>defaultdict(set)\<close> and \<^verbatim>\<open>results\<close> a \<^verbatim>\<open>defaultdict(list)\<close>, both filled
  by the loaders. The running totals of lines 80--91 are one record.
\<close>

type_synonym qrels = "(string, string fset) dict"
type_synonym results = "(string, retrieved_doc list) dict"

record totals =
  total_queries :: nat
  total_relevant :: nat
  total_retrieved :: nat
  total_rel_ret :: nat
  sum_ap :: real
  sum_p5 :: real
  sum_p10 :: real
  sum_p30 :: real
  sum_recall :: real
  sum_rprec :: real
  sum_recip_rank :: real

definition totals_init :: totals where
  "totals_init =
     \<lparr> total_queries = 0, total_relevant = 0, total_retrieved = 0, total_rel_ret = 0,
       sum_ap = 0, sum_p5 = 0, sum_p10 = 0, sum_p30 = 0, sum_recall = 0, sum_rprec = 0,
       sum_recip_rank = 0 \<rparr>"

definition add_query :: "totals \<Rightarrow> query_metric \<Rightarrow> totals" where
  "add_query t m =
     \<lparr> total_queries = total_queries t + 1,
       total_relevant = total_relevant t + qm_num_rel m,
       total_retrieved = total_retrieved t + qm_num_ret m,
       total_rel_ret = total_rel_ret t + qm_num_rel_ret m,
       sum_ap = sum_ap t + qm_ap m,
       sum_p5 = sum_p5 t + qm_P_5 m,
       sum_p10 = sum_p10 t + qm_P_10 m,
       sum_p30 = sum_p30 t + qm_P_30 m,
       sum_recall = sum_recall t + qm_recall m,
       sum_rprec = sum_rprec t + qm_Rprec m,
       sum_recip_rank = sum_recip_rank t + qm_recip_rank m \<rparr>"

text \<open>
  Lines 93--181: the loop over \<^verbatim>\<open>sorted(qrels.keys())\<close>. A query absent from \<^verbatim>\<open>results\<close>
  or with an empty relevant set is skipped; reading a \<^verbatim>\<open>defaultdict(set)\<close> at a missing
  key gives the empty set.
\<close>

fun queries_loop ::
  "qrels \<Rightarrow> results \<Rightarrow> string list \<Rightarrow> totals \<Rightarrow> (string, query_metric) dict
   \<Rightarrow> py_error + (totals \<times> (string, query_metric) dict)" where
  "queries_loop qrels results [] t query_metrics = Inr (t, query_metrics)"
| "queries_loop qrels results (query_id # rest) t query_metrics =
     (case dict_get results query_id of
        None \<Rightarrow> queries_loop qrels results rest t query_metrics
      | Some retrieved_docs \<Rightarrow>
          (let relevant_docs = (case dict_get qrels query_id of None \<Rightarrow> {||} | Some s \<Rightarrow> s) in
           if relevant_docs = {||} then queries_loop qrels results rest t query_metrics
           else case query_body relevant_docs retrieved_docs of
                  Inl e \<Rightarrow> Inl e
                | Inr m \<Rightarrow>
                    queries_loop qrels results rest (add_query t m)
                      (dict_set query_metrics query_id m)))"

text \<open>
  The values of \<^verbatim>\<open>all_metrics\<close> are floats and integers. Lines 183--196 fill the
  dictionary only under \<^verbatim>\<open>total_queries > 0\<close>, which also guards the divisions.
\<close>

datatype py_num = PyFloat real | PyInt int

definition calculate_metrics ::
  "qrels \<Rightarrow> results \<Rightarrow> py_error + ((string, py_num) dict \<times> (string, query_metric) dict)" where
  "calculate_metrics qrels results =
     (case queries_loop qrels results (sort (dict_keys qrels)) totals_init [] of
        Inl e \<Rightarrow> Inl e
      | Inr (t, query_metrics) \<Rightarrow>
          Inr (if total_queries t > 0 then
                 [(''map'', PyFloat (sum_ap t / real (total_queries t))),
                  (''P_5'', PyFloat (sum_p5 t / real (total_queries t))),
                  (''P_10'', PyFloat (sum_p10 t / real (total_queries t))),
                  (''P_30'', PyFloat (sum_p30 t / real (total_queries t))),
                  (''recall'', PyFloat (sum_recall t / real (total_queries t))),
                  (''Rprec'', PyFloat (sum_rprec t / real (total_queries t))),
                  (''recip_rank'', PyFloat (sum_recip_rank t / real (total_queries t))),
                  (''num_q'', PyInt (int (total_queries t))),
                  (''num_rel'', PyInt (int (total_relevant t))),
                  (''num_ret'', PyInt (int (total_retrieved t))),
                  (''num_rel_ret'', PyInt (int (total_rel_ret t)))]
               else [],
               query_metrics))"

text \<open>
  \<^verbatim>\<open>print_results\<close> (lines 199--242). A printed line is kept as its label, its query
  column and its value; an error message is a line of its own. What was printed before an
  exception stays printed, so the result is the output so far and the exception, if any.
\<close>

datatype out_line = Line string string py_num | ErrorLine py_error

definition per_query_lines ::
  "string \<Rightarrow> (query_metric \<Rightarrow> real) \<Rightarrow> (string, query_metric) dict \<Rightarrow> out_line list" where
  "per_query_lines label field query_metrics =
     concat (map (\<lambda>query_id. case dict_get query_metrics query_id of
                                None \<Rightarrow> []
                              | Some metrics \<Rightarrow> [Line label query_id (PyFloat (field metrics))])
                 (sort (dict_keys query_metrics)))"

fun print_all ::
  "(string, py_num) dict \<Rightarrow> string list \<Rightarrow> out_line list \<Rightarrow> out_line list \<times> py_error option" where
  "print_all all_metrics [] out = (out, None)"
| "print_all all_metrics (key # keys) out =
     (case dict_get all_metrics key of
        None \<Rightarrow> (out, Some (KeyError key))
      | Some v \<Rightarrow> print_all all_metrics keys (out @ [Line key ''all'' v]))"

definition print_results ::
  "(string, py_num) dict \<Rightarrow> (string, query_metric) dict \<Rightarrow> out_line list \<times> py_error option" where
  "print_results all_metrics query_metrics =
     print_all all_metrics
       [''map'', ''Rprec'', ''P_5'', ''P_10'', ''P_30'', ''recall'', ''recip_rank'',
        ''num_q'', ''num_rel'', ''num_ret'', ''num_rel_ret'']
       (per_query_lines ''map'' qm_ap query_metrics
        @ per_query_lines ''Rprec'' qm_Rprec query_metrics
        @ per_query_lines ''P_5'' qm_P_5 query_metrics
        @ per_query_lines ''P_10'' qm_P_10 query_metrics
        @ per_query_lines ''P_30'' qm_P_30 query_metrics
        @ per_query_lines ''recall'' qm_recall query_metrics
        @ per_query_lines ''recip_rank'' qm_recip_rank query_metrics)"

text \<open>
  \<^verbatim>\<open>main\<close> (lines 253--265) once both files are loaded: the output and the exit status.
  Any exception of \<^verbatim>\<open>calculate_metrics\<close> or \<^verbatim>\<open>print_results\<close> is caught, printed as
  \<^verbatim>\<open>Error: ...\<close> and turned into \<^verbatim>\<open>sys.exit(1)\<close>.
\<close>

definition main :: "qrels \<Rightarrow> results \<Rightarrow> out_line list \<times> nat" where
  "main qrels results =
     (case calculate_metrics qrels results of
        Inl e \<Rightarrow> ([ErrorLine e], 1)
      | Inr (all_metrics, query_metrics) \<Rightarrow>
          (case print_results all_metrics query_metrics of
             (out, None) \<Rightarrow> (out, 0)
           | (out, Some e) \<Rightarrow> (out @ [ErrorLine e], 1)))"

section \<open>evaluate\_map.py: Average Precision\<close>

text \<open>
  \<^verbatim>\<open>calculate_average_precision\<close> (lines 45--62): the same loop under other names, with
  an early return for an empty relevant set and one for no relevant document found.
\<close>

fun precision_sum_loop ::
  "string fset \<Rightarrow> retrieved_doc list \<Rightarrow> nat \<Rightarrow> nat \<Rightarrow> real \<Rightarrow> py_error + (nat \<times> real)" where
  "precision_sum_loop relevant_docs [] i relevant_retrieved precision_sum =
     Inr (relevant_retrieved, precision_sum)"
| "precision_sum_loop relevant_docs ((doc_id, rank, score) # rest) i relevant_retrieved
       precision_sum =
     (if doc_id |\<in>| relevant_docs then
        (case truediv (real (relevant_retrieved + 1)) (real (i + 1)) of
           Inl e \<Rightarrow> Inl e
         | Inr precision_at_i \<Rightarrow>
             precision_sum_loop relevant_docs rest (i + 1) (relevant_retrieved + 1)
               (precision_sum + precision_at_i))
      else precision_sum_loop relevant_docs rest (i + 1) relevant_retrieved precision_sum)"

definition calculate_average_precision ::
  "string fset \<Rightarrow> retrieved_doc list \<Rightarrow> py_error + real" where
  "calculate_average_precision relevant_docs retrieved_docs =
     (if relevant_docs = {||} then Inr 0
      else case precision_sum_loop relevant_docs retrieved_docs 0 0 0 of
             Inl e \<Rightarrow> Inl e
           | Inr (relevant_retrieved, precision_sum) \<Rightarrow>
               if relevant_retrieved = 0 then Inr 0
               else truediv precision_sum (real (fcard relevant_docs)))"

text \<open>
  \<^verbatim>\<open>calculate_map\<close> (lines 64--85): the mean over the queries of \<^verbatim>\<open>qrels\<close> that have
  results, in the order of the dictionary, and \<^verbatim>\<open>0.0\<close> when there is none.
\<close>

fun map_loop ::
  "qrels \<Rightarrow> results \<Rightarrow> string list \<Rightarrow> real \<Rightarrow> nat \<Rightarrow> (string, real) dict
   \<Rightarrow> py_error + (real \<times> nat \<times> (string, real) dict)" where
  "map_loop qrels results [] total_ap num_queries query_aps =
     Inr (total_ap, num_queries, query_aps)"
| "map_loop qrels results (query_id # rest) total_ap num_queries query_aps =
     (case dict_get results query_id of
        None \<Rightarrow> map_loop qrels results rest total_ap num_queries query_aps
      | Some retrieved_docs \<Rightarrow>
          (let relevant_docs = (case dict_get qrels query_id of None \<Rightarrow> {||} | Some s \<Rightarrow> s) in
           case calculate_average_precision relevant_docs retrieved_docs of
             Inl e \<Rightarrow> Inl e
           | Inr ap \<Rightarrow>
               map_loop qrels results rest (total_ap + ap) (num_queries + 1)
                 (dict_set query_aps query_id ap)))"

definition calculate_map :: "qrels \<Rightarrow> results \<Rightarrow> py_error + (real \<times> (string, real) dict)" where
  "calculate_map qrels results =
     (case map_loop qrels results (dict_keys qrels) 0 0 [] of
        Inl e \<Rightarrow> Inl e
      | Inr (total_ap, num_queries, query_aps) \<Rightarrow>
          if num_queries = 0 then Inr (0, query_aps)
          else (case truediv total_ap (real num_queries) of
                  Inl e \<Rightarrow> Inl e
                | Inr map_score \<Rightarrow> Inr (map_score, query_aps)))"

section \<open>ir\_system.py: preprocessing\<close>

text \<open>
  Text is a string of ASCII characters. \<open>lower_char\<close> is \<^verbatim>\<open>str.lower\<close> on one character,
  \<open>is_space\<close> the whitespace of \<^verbatim>\<open>\s\<close> and of \<^verbatim>\<open>str.split()\<close> (tab, line feed, vertical tab,
  form feed, carriage return, the four separators \<^verbatim>\<open>\x1c\<close>--\<^verbatim>\<open>\x1f\<close> and the space).
\<close>

definition lower_char :: "char \<Rightarrow> char" where
  "lower_char c =
     (if CHR ''A'' \<le> c \<and> c \<le> CHR ''Z'' then char_of (of_char c + (32::nat)) else c)"

definition is_space :: "char \<Rightarrow> bool" where
  "is_space c =
     ((9::nat) \<le> of_char c \<and> of_char c \<le> (13::nat)
      \<or> (28::nat) \<le> of_char c \<and> of_char c \<le> (32::nat))"

definition is_lower_alnum :: "char \<Rightarrow> bool" where
  "is_lower_alnum c =
     (CHR ''a'' \<le> c \<and> c \<le> CHR ''z'' \<or> CHR ''0'' \<le> c \<and> c \<le> CHR ''9'')"

text \<open>\<^verbatim>\<open>re.sub(r'[^a-z0-9\s]', ' ', text)\<close>.\<close>

definition re_sub_non_alnum :: "string \<Rightarrow> string" where
  "re_sub_non_alnum text =
     map (\<lambda>c. if is_lower_alnum c \<or> is_space c then c else CHR '' '') text"

text \<open>\<^verbatim>\<open>text.split()\<close>: the maximal runs of non-whitespace; \<open>cur\<close> is the run being read.\<close>

fun split_loop :: "string \<Rightarrow> string \<Rightarrow> string list" where
  "split_loop [] cur = (if cur = [] then [] else [cur])"
| "split_loop (c # cs) cur =
     (if is_space c then (if cur = [] then split_loop cs [] else cur # split_loop cs [])
      else split_loop cs (cur @ [c]))"

definition py_split :: "string \<Rightarrow> string list" where
  "py_split text = split_loop text []"

text \<open>
  \<^verbatim>\<open>preprocess\<close> (lines 39--62). \<^verbatim>\<open>STOPWORDS\<close> is the module's global set. The stemmer is
  the environment's: \<open>None\<close> when \<^verbatim>\<open>from nltk.stem import PorterStemmer\<close> raises
  \<^verbatim>\<open>ImportError\<close>, else \<open>Some stem\<close> with \<open>stem\<close> the function \<^verbatim>\<open>PorterStemmer().stem\<close>.
  The body never reads the parameter \<^verbatim>\<open>stemming\<close>.
\<close>

definition preprocess ::
  "string set \<Rightarrow> (string \<Rightarrow> string) option \<Rightarrow> string \<Rightarrow> bool \<Rightarrow> string list" where
  "preprocess STOPWORDS stemmer text stemming =
     (if text = [] then []
      else let lowered = map lower_char text;
               cleaned = re_sub_non_alnum lowered;
               tokens = py_split cleaned;
               tokens = filter (\<lambda>t. t \<notin> STOPWORDS \<and> length t > 1) tokens
           in case stemmer of
                Some stem \<Rightarrow> map stem tokens
              | None \<Rightarrow> tokens)"

section \<open>ir\_system.py: indexing\<close>

text \<open>A corpus line after \<^verbatim>\<open>json.loads\<close>: the fields \<^verbatim>\<open>_id\<close>, \<^verbatim>\<open>title\<close> and \<^verbatim>\<open>text\<close>.\<close>

record corpus_doc =
  d_id :: string
  d_title :: string
  d_text :: string

text \<open>\<^verbatim>\<open>collections.Counter(tokens)\<close>, in first-occurrence order.\<close>

definition Counter :: "string list \<Rightarrow> (string, nat) dict" where
  "Counter tokens =
     fold (\<lambda>t c. dict_set c t ((case dict_get c t of None \<Rightarrow> 0 | Some n \<Rightarrow> n) + 1)) tokens []"

type_synonym inverted_index = "(string, (string \<times> nat) list) dict"
type_synonym index_state = "inverted_index \<times> (string, nat) dict \<times> nat \<times> nat"

text \<open>
  One pass of the loop of \<^verbatim>\<open>build_index\<close> (lines 76--95); the state is
  \<^verbatim>\<open>(inverted_index, doc_lengths, total_tokens, num_docs)\<close>. Reading the
  \<^verbatim>\<open>defaultdict(list)\<close> at a new term gives the empty list.
\<close>

definition index_doc ::
  "string set \<Rightarrow> (string \<Rightarrow> string) option \<Rightarrow> bool \<Rightarrow> corpus_doc \<Rightarrow> index_state \<Rightarrow> index_state" where
  "index_doc STOPWORDS stemmer use_full_text data st =
     (case st of (inverted_index, doc_lengths, total_tokens, num_docs) \<Rightarrow>
        let doc_id = d_id data;
            content = (if use_full_text then d_title data @ '' '' @ d_text data
                       else d_title data);
            tokens = preprocess STOPWORDS stemmer content True;
            len = length tokens;
            term_counts = Counter tokens
        in (fold (\<lambda>(term, tf) idx.
                    dict_set idx term
                      ((case dict_get idx term of None \<Rightarrow> [] | Some ps \<Rightarrow> ps) @ [(doc_id, tf)]))
                 term_counts inverted_index,
            dict_set doc_lengths doc_id len,
            total_tokens + len,
            num_docs + 1))"

definition build_index ::
  "string set \<Rightarrow> (string \<Rightarrow> string) option \<Rightarrow> corpus_doc list \<Rightarrow> bool
   \<Rightarrow> inverted_index \<times> (string, nat) dict \<times> real \<times> nat" where
  "build_index STOPWORDS stemmer corpus use_full_text =
     (case fold (index_doc STOPWORDS stemmer use_full_text) corpus ([], [], 0, 0) of
        (inverted_index, doc_lengths, total_tokens, num_docs) \<Rightarrow>
          (inverted_index, doc_lengths,
           (if num_docs > 0 then real total_tokens / real num_docs else 0),
           num_docs))"

section \<open>ir\_system.py: BM25 scoring and ranking\<close>

definition k1 :: real where
  "k1 = 12 / 10"

definition b :: real where
  "b = 75 / 100"

text \<open>Line 125: the idf of a term that \<open>n_docs_with_term\<close> postings hold.\<close>

definition idf :: "int \<Rightarrow> nat \<Rightarrow> py_error + real" where
  "idf num_docs n_docs_with_term =
     (case truediv (real_of_int num_docs - real n_docs_with_term + 5 / 10)
                   (real n_docs_with_term + 5 / 10) of
        Inl e \<Rightarrow> Inl e
      | Inr q \<Rightarrow> math_log (q + 1))"

text \<open>
  Lines 129--136: the loop over the postings of one term. \<^verbatim>\<open>doc_lengths\<close> is a plain
  dictionary, \<^verbatim>\<open>scores\<close> a \<^verbatim>\<open>defaultdict(float)\<close>.
\<close>

fun postings_loop ::
  "real \<Rightarrow> (string \<times> nat) list \<Rightarrow> (string, nat) dict \<Rightarrow> real \<Rightarrow> (string, real) dict
   \<Rightarrow> py_error + (string, real) dict" where
  "postings_loop idf_v [] doc_lengths avg_doc_length scores = Inr scores"
| "postings_loop idf_v ((doc_id, tf) # rest) doc_lengths avg_doc_length scores =
     (case dict_get doc_lengths doc_id of
        None \<Rightarrow> Inl (KeyError doc_id)
      | Some doc_len \<Rightarrow>
          (let numerator = real tf * (k1 + 1) in
           case truediv (real doc_len) avg_doc_length of
             Inl e \<Rightarrow> Inl e
           | Inr ratio \<Rightarrow>
               (let denominator = real tf + k1 * (1 - b + b * ratio) in
                case truediv numerator denominator of
                  Inl e \<Rightarrow> Inl e
                | Inr q \<Rightarrow>
                    postings_loop idf_v rest doc_lengths avg_doc_length
                      (dict_set scores doc_id
                         ((case dict_get scores doc_id of None \<Rightarrow> 0 | Some s \<Rightarrow> s)
                          + idf_v * q)))))"

text \<open>Lines 115--136: the loop over the query's tokens.\<close>

fun terms_loop ::
  "string list \<Rightarrow> inverted_index \<Rightarrow> (string, nat) dict \<Rightarrow> real \<Rightarrow> int \<Rightarrow> (string, real) dict
   \<Rightarrow> py_error + (string, real) dict" where
  "terms_loop [] inverted_index doc_lengths avg_doc_length num_docs scores = Inr scores"
| "terms_loop (term # rest) inverted_index doc_lengths avg_doc_length num_docs scores =
     (case dict_get inverted_index term of
        None \<Rightarrow> terms_loop rest inverted_index doc_lengths avg_doc_length num_docs scores
      | Some postings \<Rightarrow>
          (case idf num_docs (length postings) of
             Inl e \<Rightarrow> Inl e
           | Inr idf_v \<Rightarrow>
               (case postings_loop idf_v postings doc_lengths avg_doc_length scores of
                  Inl e \<Rightarrow> Inl e
                | Inr scores' \<Rightarrow>
                    terms_loop rest inverted_index doc_lengths avg_doc_length num_docs
                      scores')))"

definition score_query ::
  "string list \<Rightarrow> inverted_index \<Rightarrow> (string, nat) dict \<Rightarrow> real \<Rightarrow> int
   \<Rightarrow> py_error + (string, real) dict" where
  "score_query query_tokens inverted_index doc_lengths avg_doc_length num_docs =
     terms_loop query_tokens inverted_index doc_lengths avg_doc_length num_docs []"

text \<open>
  Lines 170--173 of \<^verbatim>\<open>run_system\<close>. \<^verbatim>\<open>sorted(..., key=lambda x: x[1], reverse=True)\<close> is a
  stable sort by descending score: documents of equal score keep the order of the
  dictionary. \<^verbatim>\<open>enumerate(sorted_docs, 1)\<close> numbers the entries from 1.
\<close>

definition sorted_docs_of :: "(string, real) dict \<Rightarrow> (string \<times> real) list" where
  "sorted_docs_of doc_scores = take 100 (sort_key (\<lambda>x. - snd x) doc_scores)"

definition rank_results ::
  "string \<Rightarrow> (string, real) dict \<Rightarrow> (string \<times> string \<times> nat \<times> real) list" where
  "rank_results q_id doc_scores =
     map (\<lambda>(rank, (doc_id, score)). (q_id, doc_id, rank, score))
         (enumerate 1 (sorted_docs_of doc_scores))"

text \<open>
  \<^verbatim>\<open>nltk\<close> is not part of the repository, so the stemmer is a parameter of \<open>preprocess\<close>.
  For a concrete run with a stemmer, \<open>strip_ing\<close> applies the one rule of Porter's step 1b
  that the run needs (a final \<^verbatim>\<open>ing\<close> is removed when what remains holds a vowel) and
  returns every other word as it is; on the word \<^verbatim>\<open>being\<close> it gives \<^verbatim>\<open>be\<close>, as
  \<^verbatim>\<open>PorterStemmer().stem\<close> does.
\<close>

definition is_vowel :: "char \<Rightarrow> bool" where
  "is_vowel c = (c \<in> set ''aeiou'')"

definition strip_ing :: "string \<Rightarrow> string" where
  "strip_ing w =
     (if drop (length w - 3) w = ''ing'' \<and> list_ex is_vowel (take (length w - 3) w)
      then take (length w - 3) w else w)"

text \<open>
  The R-precision of the specification's wording, to compare \<open>r_prec\<close> with: the relevant
  documents among the first \<open>min(R, retrieved_count)\<close> retrieved ones, divided by \<open>R\<close>.
\<close>

definition claimed_r_prec :: "string fset \<Rightarrow> retrieved_doc list \<Rightarrow> real" where
  "claimed_r_prec relevant_docs retrieved_docs =
     real (length (filter (\<lambda>x. fst x |\<in>| relevant_docs)
                     (take (min (fcard relevant_docs) (length retrieved_docs)) retrieved_docs)))
     / real (fcard relevant_docs)"

section \<open>Properties of the per-query metrics\<close>

text \<open>
  The Average Precision loop never fails. Each relevant position adds a precision between
  \<open>0\<close> and \<open>1\<close>, as long as the count of relevant documents found does not exceed the
  index, and exactly \<open>1\<close> when every document so far was relevant.
\<close>

lemma ap_loop_bounds:
  assumes "rel_found \<le> i"
  shows "\<exists>rf s. ap_loop rel ret i rel_found ap_sum = Inr (rf, s)
           \<and> rf = rel_found + length (filter (\<lambda>x. fst x |\<in>| rel) ret)
           \<and> ap_sum \<le> s \<and> s \<le> ap_sum + real (length (filter (\<lambda>x. fst x |\<in>| rel) ret))"
  using assms
proof (induction ret arbitrary: i rel_found ap_sum)
  case Nil
  then show ?case by simp
next
  case (Cons x ret)
  obtain doc_id rank score where x: "x = (doc_id, rank, score)" by (cases x)
  show ?case
  proof (cases "doc_id |\<in>| rel")
    case True
    define p where "p = real (rel_found + 1) / real (i + 1)"
    have p: "0 \<le> p" "p \<le> 1" using Cons.prems by (simp_all add: p_def)
    have "rel_found + 1 \<le> i + 1" using Cons.prems by simp
    from Cons.IH[OF this, of "ap_sum + p"] obtain rf s where
      h: "ap_loop rel ret (i + 1) (rel_found + 1) (ap_sum + p) = Inr (rf, s)"
         "rf = rel_found + 1 + length (filter (\<lambda>x. fst x |\<in>| rel) ret)"
         "ap_sum + p \<le> s" "s \<le> ap_sum + p + real (length (filter (\<lambda>x. fst x |\<in>| rel) ret))"
      by blast
    have "ap_loop rel (x # ret) i rel_found ap_sum = Inr (rf, s)"
      using True h(1) by (simp add: x truediv_def p_def)
    then show ?thesis using h p True by (simp add: x)
  next
    case False
    have "rel_found \<le> i + 1" using Cons.prems by simp
    from Cons.IH[OF this, of ap_sum] show ?thesis using False by (simp add: x)
  qed
qed

lemma ap_loop_all_relevant:
  assumes "\<forall>x \<in> set ret. fst x |\<in>| rel"
  shows "ap_loop rel ret i i ap_sum = Inr (i + length ret, ap_sum + real (length ret))"
  using assms
proof (induction ret arbitrary: i ap_sum)
  case Nil
  then show ?case by simp
next
  case (Cons x ret)
  obtain doc_id rank score where x: "x = (doc_id, rank, score)" by (cases x)
  have "ap_loop rel ret (i + 1) (i + 1) (ap_sum + 1) = Inr (i + 1 + length ret, ap_sum + 1 + real (length ret))"
    using Cons by simp
  then show ?case using Cons.prems by (simp add: x truediv_def)
qed

text \<open>A list of distinct document ids holds each relevant document at most once.\<close>

lemma relevant_retrieved_le:
  assumes "distinct (map fst ret)"
  shows "length (filter (\<lambda>x. fst x |\<in>| rel) ret) \<le> fcard rel"
proof -
  have "length (filter (\<lambda>x. fst x |\<in>| rel) ret) = length (filter (\<lambda>d. d |\<in>| rel) (map fst ret))"
    by (induction ret) auto
  also have "\<dots> = card (set (filter (\<lambda>d. d |\<in>| rel) (map fst ret)))"
    using distinct_card[OF distinct_filter[OF assms], of "\<lambda>d. d |\<in>| rel"] by simp
  also have "\<dots> \<le> card (fset rel)"
    by (rule card_mono) auto
  finally show ?thesis by (simp add: fcard.rep_eq)
qed

lemma all_retrieved_card:
  assumes "distinct (map fst ret)" "fset_of_list (map fst ret) = rel"
  shows "length ret = fcard rel"
proof -
  have "fcard rel = card (set (map fst ret))"
    using assms(2) by (auto simp: fcard.rep_eq fset_of_list.rep_eq)
  then show ?thesis using distinct_card[OF assms(1)] by simp
qed

text \<open>The indexed loop of R-precision counts the relevant documents of a prefix.\<close>

lemma r_retrieved_count_take:
  "r_retrieved_count rel n ret = length (filter (\<lambda>x. fst x |\<in>| rel) (take n ret))"
proof -
  have "m \<le> length ret \<Longrightarrow>
        fold (\<lambda>i r. if fst (ret ! i) |\<in>| rel then r + 1 else r) [0 ..< m] 0
          = length (filter (\<lambda>x. fst x |\<in>| rel) (take m ret))" for m
  proof (induction m)
    case 0
    then show ?case by simp
  next
    case (Suc m)
    then show ?case by (simp add: take_Suc_conv_app_nth)
  qed
  from this[of "min n (length ret)"] show ?thesis
    by (simp add: r_retrieved_count_def min_def)
qed

lemma recip_rank_none:
  "\<forall>x \<in> set ret. fst x |\<notin>| rel \<Longrightarrow> recip_rank rel ret = Inr 0"
  by (induction ret) auto

lemma recip_rank_first:
  "\<forall>x \<in> set pre. fst x |\<notin>| rel \<Longrightarrow> d |\<in>| rel \<Longrightarrow>
   recip_rank rel (pre @ (d, rank, score) # post) = truediv 1 (real_of_int rank)"
  by (induction pre) auto

text \<open>
  The precision and recall loop, for a positive number of relevant documents: it returns,
  keeps a sorted recall list sorted, and its lists are given position by position.
\<close>

lemma ranks_loop_sorted:
  assumes "0 < num_relevant" "sorted rs" "\<forall>r \<in> set rs. r \<le> real rel_ret / real num_relevant"
  shows "\<exists>n ps' rs'. ranks_loop rel num_relevant ret i rel_ret ps rs = Inr (n, ps', rs')
           \<and> sorted rs' \<and> length rs' = length rs + length ret \<and> length ps' = length ps + length ret"
  using assms
proof (induction ret arbitrary: i rel_ret ps rs)
  case Nil
  then show ?case by simp
next
  case (Cons x ret)
  obtain doc_id rank score where x: "x = (doc_id, rank, score)" by (cases x)
  define r' where "r' = (if doc_id |\<in>| rel then rel_ret + 1 else rel_ret)"
  have le: "real rel_ret / real num_relevant \<le> real r' / real num_relevant"
    using Cons.prems(1) by (simp add: r'_def divide_right_mono)
  have s: "sorted (rs @ [real r' / real num_relevant])"
    using Cons.prems(2,3) le by (auto simp: sorted_append intro: order_trans)
  have b: "\<forall>r \<in> set (rs @ [real r' / real num_relevant]). r \<le> real r' / real num_relevant"
    using Cons.prems(3) le by (auto intro: order_trans)
  from Cons.IH[OF Cons.prems(1) s b, of "i + 1" "ps @ [real r' / real (i + 1)]"]
  show ?case using Cons.prems(1) by (simp add: x truediv_def r'_def Let_def)
qed

lemma fcard_pos: "rel \<noteq> {||} \<Longrightarrow> 0 < fcard rel"
  by (metis fcard_fempty fcard_seteq fempty_fsubsetI gr0I le_refl)

lemma upt_0_Suc: "[0 ..< Suc m] = 0 # map Suc [0 ..< m]"
  by (simp add: upt_conv_Cons map_Suc_upt del: upt_Suc)

lemma ranks_loop_values:
  assumes "0 < num_relevant"
  shows "ranks_loop rel num_relevant ret i rel_ret ps rs =
           Inr (rel_ret + length (filter (\<lambda>x. fst x |\<in>| rel) ret),
                ps @ map (\<lambda>k. real (rel_ret + length (filter (\<lambda>x. fst x |\<in>| rel) (take (Suc k) ret)))
                                / real (i + Suc k)) [0 ..< length ret],
                rs @ map (\<lambda>k. real (rel_ret + length (filter (\<lambda>x. fst x |\<in>| rel) (take (Suc k) ret)))
                                / real num_relevant) [0 ..< length ret])"
proof (induction ret arbitrary: i rel_ret ps rs)
  case Nil
  then show ?case by simp
next
  case (Cons x ret)
  obtain doc_id rank score where x: "x = (doc_id, rank, score)" by (cases x)
  show ?case
    using assms
    by (simp add: x Cons.IH truediv_def Let_def upt_0_Suc comp_def del: upt_Suc)
qed

lemma precision_sum_loop_eq: "precision_sum_loop rel ret i n s = ap_loop rel ret i n s"
  by (induction rel ret i n s rule: ap_loop.induct) (auto split: sum.splits)

lemma ap_value:
  assumes "distinct (map fst ret)"
  shows "\<exists>a. average_precision rel (fcard rel) ret = Inr a
            \<and> calculate_average_precision rel ret = Inr a
            \<and> 0 \<le> a \<and> a \<le> 1
            \<and> (rel \<noteq> {||} \<and> fset_of_list (map fst ret) = rel \<longrightarrow> a = 1)"
proof -
  let ?k = "length (filter (\<lambda>x. fst x |\<in>| rel) ret)"
  obtain s where loop: "ap_loop rel ret 0 0 0 = Inr (?k, s)" and s: "0 \<le> s" "s \<le> real ?k"
    using ap_loop_bounds[of 0 0 rel ret 0] by auto
  have k: "?k \<le> fcard rel" by (rule relevant_retrieved_le[OF assms])
  show ?thesis
  proof (cases "rel = {||}")
    case True
    then show ?thesis using loop
      by (simp add: average_precision_def calculate_average_precision_def fcard_fempty)
  next
    case False
    then have n: "0 < fcard rel" by (rule fcard_pos)
    have s0: "?k = 0 \<Longrightarrow> s = 0" using s by simp
    have eq1: "average_precision rel (fcard rel) ret = Inr (s / real (fcard rel))"
      using n False by (simp add: average_precision_def loop truediv_def)
    have eq2: "calculate_average_precision rel ret = Inr (s / real (fcard rel))"
      using n False s0
      by (simp add: calculate_average_precision_def precision_sum_loop_eq loop truediv_def)
    have b: "0 \<le> s / real (fcard rel)" "s / real (fcard rel) \<le> 1"
      using s k n by simp_all
    have one: "s / real (fcard rel) = 1" if all: "fset_of_list (map fst ret) = rel"
    proof -
      have "\<forall>x \<in> set ret. fst x |\<in>| rel" using all by (auto simp: fset_of_list.rep_eq)
      from ap_loop_all_relevant[OF this, of 0 0] loop have "s = real (length ret)" by simp
      then show ?thesis using all_retrieved_card[OF assms all] n False by simp
    qed
    show ?thesis using eq1 eq2 b one by blast
  qed
qed

lemma query_body_fields:
  assumes "query_body rel ret = Inr m"
  shows "average_precision rel (fcard rel) ret = Inr (qm_ap m)"
    and "r_prec rel (fcard rel) ret = Inr (qm_Rprec m)"
    and "recip_rank rel ret = Inr (qm_recip_rank m)"
  using assms by (auto simp: query_body_def Let_def split: sum.splits prod.splits)

lemma r_prec_value:
  assumes "rel \<noteq> {||}"
  shows "r_prec rel (fcard rel) ret =
           Inr (if fcard rel \<le> length ret
                then real (length (filter (\<lambda>x. fst x |\<in>| rel) (take (fcard rel) ret))) / real (fcard rel)
                else 0)"
  using fcard_pos[OF assms] assms by (simp add: r_prec_def truediv_def r_retrieved_count_take)

text \<open>
  What \<^verbatim>\<open>calculate_metrics\<close> stores under a query id is the result of the loop body on
  that query's relevant set and retrieved list, so a property of \<open>query_body\<close> is a
  property of every stored record.
\<close>

lemma dict_get_dict_set:
  "dict_get (dict_set d k v) k' = (if k' = k then Some v else dict_get d k')"
  by (induction d) (auto simp: dict_get_def)

lemma queries_loop_stored:
  assumes "queries_loop qrels results ks t qm = Inr (t', qm')"
    and "dict_get qm' q = Some m"
    and "\<And>q m. dict_get qm q = Some m \<Longrightarrow>
           \<exists>rel ret. dict_get qrels q = Some rel \<and> rel \<noteq> {||} \<and> dict_get results q = Some ret
                     \<and> query_body rel ret = Inr m"
  shows "\<exists>rel ret. dict_get qrels q = Some rel \<and> rel \<noteq> {||} \<and> dict_get results q = Some ret
                   \<and> query_body rel ret = Inr m"
  using assms
proof (induction ks arbitrary: t qm)
  case Nil
  then show ?case by simp
next
  case (Cons k ks)
  show ?case
  proof (cases "dict_get results k")
    case None
    with Cons.prems(1) have "queries_loop qrels results ks t qm = Inr (t', qm')" by simp
    from Cons.IH[OF this Cons.prems(2)] Cons.prems(3) show ?thesis by blast
  next
    case (Some ret)
    show ?thesis
    proof (cases "dict_get qrels k")
      case None
      with Some Cons.prems(1) have "queries_loop qrels results ks t qm = Inr (t', qm')" by simp
      from Cons.IH[OF this Cons.prems(2)] Cons.prems(3) show ?thesis by blast
    next
      case rel: (Some rel)
      show ?thesis
      proof (cases "rel = {||}")
        case True
        with Some rel Cons.prems(1) have "queries_loop qrels results ks t qm = Inr (t', qm')" by simp
        from Cons.IH[OF this Cons.prems(2)] Cons.prems(3) show ?thesis by blast
      next
        case False
        from Cons.prems(1) Some rel False obtain mk where
          mk: "query_body rel ret = Inr mk"
          and loop: "queries_loop qrels results ks (add_query t mk) (dict_set qm k mk) = Inr (t', qm')"
          by (auto split: sum.splits)
        have "\<exists>rel ret. dict_get qrels q' = Some rel \<and> rel \<noteq> {||} \<and> dict_get results q' = Some ret
                     \<and> query_body rel ret = Inr m'"
          if "dict_get (dict_set qm k mk) q' = Some m'" for q' m'
          using that Cons.prems(3)[of q' m'] Some rel False mk
          by (auto simp: dict_get_dict_set split: if_splits)
        from Cons.IH[OF loop Cons.prems(2) this] show ?thesis by blast
      qed
    qed
  qed
qed

lemma calculate_metrics_stored:
  assumes "calculate_metrics qrels results = Inr (all_metrics, query_metrics)"
    and "dict_get query_metrics q = Some m"
  shows "\<exists>rel ret. dict_get qrels q = Some rel \<and> rel \<noteq> {||} \<and> dict_get results q = Some ret
                   \<and> query_body rel ret = Inr m"
proof -
  from assms(1) obtain t where "queries_loop qrels results (sort (dict_keys qrels)) totals_init [] = Inr (t, query_metrics)"
    by (auto simp: calculate_metrics_def split: sum.splits)
  from queries_loop_stored[OF this assms(2)] show ?thesis by (simp add: dict_get_def)
qed

lemma claimed_r_prec_take:
  "claimed_r_prec rel ret =
     real (length (filter (\<lambda>x. fst x |\<in>| rel) (take (fcard rel) ret))) / real (fcard rel)"
  by (simp add: claimed_r_prec_def min_def)

subsection \<open>Recall at successive ranks\<close>

text \<open>
  Claim C10. For a non-empty relevant set (the only ones \<^verbatim>\<open>calculate_metrics\<close> evaluates),
  the loop of lines 111--123 returns, and the list \<^verbatim>\<open>recall_at_ranks\<close> it builds holds, at
  each position, the number of relevant documents retrieved up to there divided by the
  number of relevant documents, and is non-decreasing.
\<close>

theorem recall_at_ranks_nondecreasing:
  assumes "relevant_docs \<noteq> {||}"
  shows "\<exists>rel_ret precision_at_ranks recall_at_ranks.
           ranks_loop relevant_docs (fcard relevant_docs) retrieved_docs 0 0 [] []
             = Inr (rel_ret, precision_at_ranks, recall_at_ranks)
           \<and> recall_at_ranks =
               map (\<lambda>k. real (length (filter (\<lambda>x. fst x |\<in>| relevant_docs)
                                        (take (Suc k) retrieved_docs)))
                         / real (fcard relevant_docs))
                   [0 ..< length retrieved_docs]
           \<and> sorted recall_at_ranks"
proof -
  have n: "0 < fcard relevant_docs" using assms by (rule fcard_pos)
  obtain rel_ret ps rs where
    run: "ranks_loop relevant_docs (fcard relevant_docs) retrieved_docs 0 0 [] []
            = Inr (rel_ret, ps, rs)"
    and srt: "sorted rs"
    using ranks_loop_sorted[OF n, of "[]" 0 relevant_docs retrieved_docs 0 "[]"] by auto
  have "rs = map (\<lambda>k. real (length (filter (\<lambda>x. fst x |\<in>| relevant_docs)
                                        (take (Suc k) retrieved_docs)))
                         / real (fcard relevant_docs))
                   [0 ..< length retrieved_docs]"
    using run ranks_loop_values[OF n, of relevant_docs retrieved_docs 0 0 "[]" "[]"] by simp
  with run srt show ?thesis by blast
qed

theorem recall_at_ranks_nondecreasing_witness:
  "{|''D1'', ''D3''|} \<noteq> {||}
   \<and> (\<exists>rel_ret precision_at_ranks.
         ranks_loop {|''D1'', ''D3''|} (fcard {|''D1'', ''D3''|})
           [(''D2'', 1, 9), (''D1'', 2, 8), (''D4'', 3, 7), (''D3'', 4, 6), (''D5'', 5, 5)]
           0 0 [] []
         = Inr (rel_ret, precision_at_ranks, [0, 1 / 2, 1 / 2, 1, 1]))
   \<and> sorted [0, 1 / 2, 1 / 2, 1, 1 :: real]"
  using recall_at_ranks_nondecreasing
          [of "{|''D1'', ''D3''|}"
              "[(''D2'', 1, 9), (''D1'', 2, 8), (''D4'', 3, 7), (''D3'', 4, 6), (''D5'', 5, 5)]"]
  by (simp add: truediv_def fcard_finsert_if fcard_fempty)

subsection \<open>R-precision\<close>

text \<open>
  Claim C1, as the code has it. Line 153 guards the whole computation with
  \<^verbatim>\<open>num_relevant <= len(retrieved_docs)\<close>: a retrieved list shorter than \<open>R\<close> gets the
  hard zero of line 152, whatever it holds; only a list of at least \<open>R\<close> documents gets the
  number of relevant documents among its first \<open>R\<close> divided by \<open>R\<close>. The same value is the
  \<^verbatim>\<open>Rprec\<close> entry of the query's record.
\<close>

theorem r_prec_guarded:
  assumes "relevant_docs \<noteq> {||}"
  shows "r_prec relevant_docs (fcard relevant_docs) retrieved_docs =
           Inr (if fcard relevant_docs \<le> length retrieved_docs
                then claimed_r_prec relevant_docs retrieved_docs else 0)
         \<and> (\<forall>m. query_body relevant_docs retrieved_docs = Inr m \<longrightarrow>
                qm_Rprec m = (if fcard relevant_docs \<le> length retrieved_docs
                              then claimed_r_prec relevant_docs retrieved_docs else 0))"
proof -
  have v: "r_prec relevant_docs (fcard relevant_docs) retrieved_docs =
           Inr (if fcard relevant_docs \<le> length retrieved_docs
                then claimed_r_prec relevant_docs retrieved_docs else 0)"
    using r_prec_value[OF assms, of retrieved_docs] by (simp add: claimed_r_prec_take)
  show ?thesis using v query_body_fields(2)[of relevant_docs retrieved_docs] by auto
qed

theorem r_prec_guarded_witness:
  "{|''D1'', ''D2''|} \<noteq> {||}
   \<and> \<not> fcard {|''D1'', ''D2''|} \<le> length [(''D1'', 1, 9) :: retrieved_doc]
   \<and> r_prec {|''D1'', ''D2''|} (fcard {|''D1'', ''D2''|}) [(''D1'', 1, 9)] = Inr 0
   \<and> query_body {|''D1'', ''D2''|} [(''D1'', 1, 9)] =
       Inr \<lparr> qm_ap = 1 / 2, qm_P_5 = 0, qm_P_10 = 0, qm_P_30 = 0, qm_recall = 1 / 2,
             qm_Rprec = 0, qm_recip_rank = 1, qm_num_rel = 2, qm_num_ret = 1,
             qm_num_rel_ret = 1 \<rparr>"
  using r_prec_guarded [of "{|''D1'', ''D2''|}" "[(''D1'', 1, 9)]"]
  by (simp add: query_body_def r_prec_def truediv_def average_precision_def fcard_finsert_if
        fcard_fempty precision_at_def final_recall_of_def)

text \<open>
  The claim as stated fails: with two relevant documents and one retrieved document, which
  is relevant, the claimed value is \<open>1/2\<close> and the computed one is \<open>0\<close>.
\<close>

theorem r_prec_short_list_counterexample:
  "length [(''D1'', 1, 9) :: retrieved_doc] < fcard {|''D1'', ''D2''|}
   \<and> claimed_r_prec {|''D1'', ''D2''|} [(''D1'', 1, 9)] = 1 / 2
   \<and> r_prec {|''D1'', ''D2''|} (fcard {|''D1'', ''D2''|}) [(''D1'', 1, 9)] = Inr 0"
  by (simp add: claimed_r_prec_def r_prec_def fcard_finsert_if fcard_fempty)

subsection \<open>Average Precision\<close>

text \<open>
  Claim C3, as the code has it. Neither loop looks for a document id it has already
  counted, so the bound needs a retrieved list of pairwise distinct document ids. Then
  both \<^verbatim>\<open>calculate_metrics\<close> and \<^verbatim>\<open>calculate_average_precision\<close> return the same Average
  Precision, it lies in \<open>[0, 1]\<close>, and it is \<open>1\<close> when the relevant set is non-empty and
  the retrieved documents are exactly the relevant ones.
\<close>

theorem average_precision_unit_interval:
  assumes "distinct (map fst retrieved_docs)"
  shows "\<exists>a. average_precision relevant_docs (fcard relevant_docs) retrieved_docs = Inr a
            \<and> calculate_average_precision relevant_docs retrieved_docs = Inr a
            \<and> (\<forall>m. query_body relevant_docs retrieved_docs = Inr m \<longrightarrow> qm_ap m = a)
            \<and> 0 \<le> a \<and> a \<le> 1
            \<and> (relevant_docs \<noteq> {||} \<and> fset_of_list (map fst retrieved_docs) = relevant_docs
                 \<longrightarrow> a = 1)"
  using ap_value[OF assms, of relevant_docs]
    query_body_fields(1)[of relevant_docs retrieved_docs]
  by auto

theorem average_precision_unit_interval_witness:
  "distinct (map fst [(''D1'', 1, 9), (''D2'', 2, 8) :: retrieved_doc])
   \<and> {|''D1'', ''D2''|} \<noteq> {||}
   \<and> fset_of_list (map fst [(''D1'', 1, 9), (''D2'', 2, 8) :: retrieved_doc]) = {|''D1'', ''D2''|}
   \<and> average_precision {|''D1'', ''D2''|} (fcard {|''D1'', ''D2''|})
        [(''D1'', 1, 9), (''D2'', 2, 8)] = Inr 1
   \<and> calculate_average_precision {|''D1'', ''D2''|} [(''D1'', 1, 9), (''D2'', 2, 8)] = Inr 1"
  using average_precision_unit_interval
          [of "[(''D1'', 1, 9), (''D2'', 2, 8)]" "{|''D1'', ''D2''|}"]
  by (simp add: average_precision_def calculate_average_precision_def truediv_def
        fcard_finsert_if fcard_fempty)

text \<open>
  The claim as stated fails on a results file that lists a relevant document twice: one
  relevant document, retrieved at ranks 1 and 2, has Average Precision \<open>2\<close>.
\<close>

theorem average_precision_duplicate_counterexample:
  "average_precision {|''D1''|} (fcard {|''D1''|}) [(''D1'', 1, 9), (''D1'', 2, 8)] = Inr 2
   \<and> calculate_average_precision {|''D1''|} [(''D1'', 1, 9), (''D1'', 2, 8)] = Inr 2"
  by (simp add: average_precision_def calculate_average_precision_def truediv_def
        fcard_finsert_if fcard_fempty)

subsection \<open>Reciprocal Rank\<close>

text \<open>
  Claim C8. When no retrieved document is relevant the Reciprocal Rank is \<open>0\<close>. Otherwise
  it is \<open>1\<close> divided by the rank field of the first relevant document of the list, whatever
  the position of that document; a rank field of \<open>0\<close> has no reciprocal (line 165 raises
  \<^verbatim>\<open>ZeroDivisionError\<close>), so the rank is taken non-zero. The value is the \<^verbatim>\<open>recip_rank\<close>
  entry of the query's record.
\<close>

theorem recip_rank_by_rank_field:
  "((\<forall>x \<in> set retrieved_docs. fst x |\<notin>| relevant_docs) \<longrightarrow>
      recip_rank relevant_docs retrieved_docs = Inr 0
      \<and> (\<forall>m. query_body relevant_docs retrieved_docs = Inr m \<longrightarrow> qm_recip_rank m = 0))
   \<and> ((\<forall>x \<in> set before. fst x |\<notin>| relevant_docs) \<and> doc_id |\<in>| relevant_docs \<and> rank \<noteq> 0 \<longrightarrow>
      recip_rank relevant_docs (before @ (doc_id, rank, score) # rest)
        = Inr (1 / real_of_int rank)
      \<and> (\<forall>m. query_body relevant_docs (before @ (doc_id, rank, score) # rest) = Inr m \<longrightarrow>
             qm_recip_rank m = 1 / real_of_int rank))"
proof -
  have none: "recip_rank relevant_docs retrieved_docs = Inr 0"
    if "\<forall>x \<in> set retrieved_docs. fst x |\<notin>| relevant_docs"
    using that by (rule recip_rank_none)
  have first: "recip_rank relevant_docs (before @ (doc_id, rank, score) # rest)
                 = Inr (1 / real_of_int rank)"
    if "\<forall>x \<in> set before. fst x |\<notin>| relevant_docs" "doc_id |\<in>| relevant_docs" "rank \<noteq> 0"
    using recip_rank_first[OF that(1,2), of rank score rest] that(3) by (simp add: truediv_def)
  show ?thesis
    using none first query_body_fields(3)[of relevant_docs retrieved_docs]
      query_body_fields(3)[of relevant_docs "before @ (doc_id, rank, score) # rest"]
    by auto
qed

theorem recip_rank_by_rank_field_witness:
  "fst ((''D2'', 1, 9) :: retrieved_doc) |\<notin>| {|''D1''|}
   \<and> recip_rank {|''D1''|} [(''D2'', 1, 9)] = Inr 0
   \<and> ''D1'' |\<in>| {|''D1''|} \<and> (7::int) \<noteq> 0
   \<and> recip_rank {|''D1''|} ([(''D2'', 1, 9)] @ (''D1'', 7, 8) # [(''D3'', 8, 7)]) = Inr (1 / 7)
   \<and> query_body {|''D1''|} ([(''D2'', 1, 9)] @ (''D1'', 7, 8) # [(''D3'', 8, 7)]) =
       Inr \<lparr> qm_ap = 1 / 2, qm_P_5 = 0, qm_P_10 = 0, qm_P_30 = 0, qm_recall = 1,
             qm_Rprec = 0, qm_recip_rank = 1 / 7, qm_num_rel = 1, qm_num_ret = 3,
             qm_num_rel_ret = 1 \<rparr>"
  using recip_rank_by_rank_field
          [of "[(''D2'', 1, 9)]" "{|''D1''|}" "[(''D2'', 1, 9)]" "''D1''" 7 8 "[(''D3'', 8, 7)]"]
  by (simp add: query_body_def r_prec_def r_retrieved_count_def truediv_def
        average_precision_def fcard_finsert_if fcard_fempty precision_at_def
        final_recall_of_def)

section \<open>Properties of the query loop and the report\<close>

lemma queries_loop_skips_all:
  assumes "\<forall>q \<in> set ks. dict_get results q = None \<or> dict_get qrels q = Some {||}"
  shows "queries_loop qrels results ks t qm = Inr (t, qm)"
  using assms by (induction ks) (auto split: option.splits)

lemma map_loop_skips_all:
  assumes "\<forall>q \<in> set ks. dict_get results q = None"
  shows "map_loop qrels results ks tot n aps = Inr (tot, n, aps)"
  using assms by (induction ks) auto

lemma calculate_map_no_query:
  assumes "\<forall>q \<in> set (dict_keys qrels). dict_get results q = None"
  shows "calculate_map qrels results = Inr (0, [])"
  by (simp add: calculate_map_def map_loop_skips_all[OF assms])

lemma print_results_empty: "print_results [] [] = ([], Some (KeyError ''map''))"
  by (simp add: print_results_def per_query_lines_def dict_keys_def dict_get_def)

text \<open>
  Claim C2. When no query of \<^verbatim>\<open>qrels\<close> has results and a non-empty relevant set,
  \<^verbatim>\<open>calculate_metrics\<close> divides by nothing and returns two empty dictionaries. The report
  does not survive them: line 232 of \<^verbatim>\<open>print_results\<close> reads \<^verbatim>\<open>all_metrics['map']\<close>, which
  raises \<^verbatim>\<open>KeyError\<close>; \<^verbatim>\<open>main\<close> prints the error and exits with status 1, and no
  aggregate line is printed. (\<^verbatim>\<open>calculate_map\<close> of \<^verbatim>\<open>evaluate_map.py\<close> returns \<^verbatim>\<open>0.0\<close> in
  the same situation, see \<open>calculate_map_no_query\<close>.)
\<close>

theorem no_qualifying_query_reports_keyerror:
  assumes "\<forall>q \<in> set (dict_keys qrels). dict_get results q = None \<or> dict_get qrels q = Some {||}"
  shows "calculate_metrics qrels results = Inr ([], [])
         \<and> print_results [] [] = ([], Some (KeyError ''map''))
         \<and> main qrels results = ([ErrorLine (KeyError ''map'')], 1)"
proof -
  have "\<forall>q \<in> set (sort (dict_keys qrels)). dict_get results q = None \<or> dict_get qrels q = Some {||}"
    using assms by simp
  from queries_loop_skips_all[OF this]
  have cm: "calculate_metrics qrels results = Inr ([], [])"
    by (simp add: calculate_metrics_def totals_init_def)
  show ?thesis using cm print_results_empty by (simp add: main_def)
qed

theorem no_qualifying_query_reports_keyerror_witness:
  "dict_get ([] :: results) ''Q1'' = None
   \<and> calculate_metrics [(''Q1'', {|''D1''|})] [] = Inr ([], [])
   \<and> main [(''Q1'', {|''D1''|})] [] = ([ErrorLine (KeyError ''map'')], 1)
   \<and> calculate_map [(''Q1'', {|''D1''|})] [] = Inr (0, [])"
  using no_qualifying_query_reports_keyerror [of "[(''Q1'', {|''D1''|})]" "[]"]
  by (simp add: dict_keys_def dict_get_def calculate_map_def)

section \<open>Properties of preprocessing\<close>

text \<open>
  Claim C4. The parameter \<^verbatim>\<open>stemming\<close> has no effect: the tokens are the same for
  \<^verbatim>\<open>True\<close> and \<^verbatim>\<open>False\<close>. Without a stemmer they are the filtered tokens of the text
  whatever the flag, and with a stemmer they are stemmed whatever the flag.
\<close>

theorem preprocess_ignores_stemming_flag:
  "preprocess STOPWORDS stemmer text True = preprocess STOPWORDS stemmer text False
   \<and> preprocess STOPWORDS None text stemming
        = (if text = [] then []
           else filter (\<lambda>t. t \<notin> STOPWORDS \<and> length t > 1)
                  (py_split (re_sub_non_alnum (map lower_char text))))
   \<and> preprocess STOPWORDS (Some stem) text stemming
        = map stem (preprocess STOPWORDS None text stemming)"
  by (simp add: preprocess_def Let_def)

theorem preprocess_ignores_stemming_flag_witness:
  "preprocess {''the''} (Some strip_ing) ''The dog is being fed'' False
     = [''dog'', ''is'', ''be'', ''fed'']
   \<and> preprocess {''the''} (Some strip_ing) ''The dog is being fed'' True
     = [''dog'', ''is'', ''be'', ''fed'']
   \<and> preprocess {''the''} None ''The dog is being fed'' True
     = [''dog'', ''is'', ''being'', ''fed'']"
  using preprocess_ignores_stemming_flag [of "{''the''}" "Some strip_ing" "''The dog is being fed''"]
  by code_simp

text \<open>
  Claim C9, as the code has it. The filter of line 52 runs before the stemmer of line 58,
  so it binds the tokens that enter the stemmer, not the ones that leave it: without a
  stemmer every returned token is longer than one character and no stopword; with a
  stemmer every returned token is the stem of such a token.
\<close>

theorem preprocess_tokens_filtered:
  assumes "t \<in> set (preprocess STOPWORDS stemmer text stemming)"
  shows "case stemmer of
           None \<Rightarrow> length t > 1 \<and> t \<notin> STOPWORDS
         | Some stem \<Rightarrow> \<exists>u. t = stem u \<and> length u > 1 \<and> u \<notin> STOPWORDS"
  using assms by (auto simp: preprocess_def Let_def split: if_splits option.splits)

theorem preprocess_tokens_filtered_witness:
  "''fox'' \<in> set (preprocess {''the''} None ''The fox'' True)
   \<and> length ''fox'' > 1 \<and> ''fox'' \<notin> {''the''}
   \<and> ''be'' \<in> set (preprocess {''the''} (Some strip_ing) ''being'' True)
   \<and> (\<exists>u. ''be'' = strip_ing u \<and> length u > 1 \<and> u \<notin> {''the''})"
proof -
  have t: "char_of (116::nat) = CHR ''t''"
    by code_simp
  have run: "preprocess {''the''} None ''The fox'' True = [''fox'']"
    by (simp add: preprocess_def re_sub_non_alnum_def py_split_def lower_char_def
          is_space_def is_lower_alnum_def Let_def less_eq_char_def t)
  have run_stem: "preprocess {''the''} (Some strip_ing) ''being'' True = [''be'']"
    by (simp add: preprocess_def re_sub_non_alnum_def py_split_def lower_char_def
          is_space_def is_lower_alnum_def strip_ing_def is_vowel_def Let_def less_eq_char_def)
  show ?thesis
    using preprocess_tokens_filtered [of "''fox''" "{''the''}" None "''The fox''" True]
      preprocess_tokens_filtered [of "''be''" "{''the''}" "Some strip_ing" "''being''" True]
      run run_stem
    by simp
qed

text \<open>
  The claim as stated fails where a stemmer is importable: with the stopword \<^verbatim>\<open>be\<close>, the
  text \<^verbatim>\<open>being\<close> passes the filter and is stemmed to \<^verbatim>\<open>be\<close>, a member of the stopword
  set.
\<close>

theorem preprocess_stemmed_stopword_counterexample:
  "preprocess {''be''} (Some strip_ing) ''being'' True = [''be''] \<and> ''be'' \<in> {''be''}"
proof -
  have "preprocess {''be''} (Some strip_ing) ''being'' True = [''be'']"
    by (simp add: preprocess_def re_sub_non_alnum_def py_split_def lower_char_def
          is_space_def is_lower_alnum_def strip_ing_def is_vowel_def Let_def less_eq_char_def)
  then show ?thesis by simp
qed

section \<open>Properties of indexing and scoring\<close>

lemma Counter_Nil: "Counter [] = []"
  by (simp add: Counter_def)

lemma index_doc_step:
  "\<exists>idx' lens' len. index_doc S st full d (idx, lens, tt, n) = (idx', lens', tt + len, n + 1)
      \<and> (len = 0 \<longrightarrow> idx' = idx)"
  by (simp add: index_doc_def Let_def Counter_Nil)

lemma fold_index_doc:
  "\<exists>idx' lens' tt'. fold (index_doc S st full) corpus (idx, lens, tt, n)
        = (idx', lens', tt', n + length corpus)
      \<and> tt \<le> tt' \<and> (tt' = tt \<longrightarrow> idx' = idx)"
proof (induction corpus arbitrary: idx lens tt n)
  case Nil
  then show ?case by simp
next
  case (Cons d corpus)
  obtain idx1 lens1 len where
    step: "index_doc S st full d (idx, lens, tt, n) = (idx1, lens1, tt + len, n + 1)"
    and keep: "len = 0 \<longrightarrow> idx1 = idx"
    using index_doc_step[of S st full d idx lens tt n] by blast
  obtain idx' lens' tt' where
    rest: "fold (index_doc S st full) corpus (idx1, lens1, tt + len, n + 1)
             = (idx', lens', tt', n + 1 + length corpus)"
    and mono: "tt + len \<le> tt'" and same: "tt' = tt + len \<longrightarrow> idx' = idx1"
    using Cons.IH[of idx1 lens1 "tt + len" "n + 1"] by blast
  have "fold (index_doc S st full) (d # corpus) (idx, lens, tt, n)
          = (idx', lens', tt', n + length (d # corpus))"
    using step rest by simp
  moreover have "tt \<le> tt'" using mono by simp
  moreover have "tt' = tt \<longrightarrow> idx' = idx" using mono same keep by auto
  ultimately show ?case by blast
qed

lemma build_index_zero_avg:
  assumes "build_index S st corpus full = (inverted_index, doc_lengths, avg_doc_length, num_docs)"
    and "avg_doc_length = 0"
  shows "inverted_index = []"
proof -
  obtain idx' lens' tt' where
    f: "fold (index_doc S st full) corpus ([], [], 0, 0) = (idx', lens', tt', 0 + length corpus)"
    and same: "tt' = 0 \<longrightarrow> idx' = []"
    using fold_index_doc[of S st full corpus "[]" "[]" 0 0] by blast
  from assms(1) f have eqs: "inverted_index = idx'" "num_docs = length corpus"
    "avg_doc_length = (if length corpus > 0 then real tt' / real (length corpus) else 0)"
    by (auto simp: build_index_def)
  show ?thesis
  proof (cases "corpus = []")
    case True
    with f eqs show ?thesis by simp
  next
    case False
    with eqs(3) assms(2) have "tt' = 0" by simp
    with same eqs show ?thesis by simp
  qed
qed

lemma terms_loop_empty_index:
  "terms_loop query_tokens [] doc_lengths avg_doc_length num_docs scores = Inr scores"
  by (induction query_tokens) (simp_all add: dict_get_def)

text \<open>
  Claim C5. \<^verbatim>\<open>score_query\<close> itself divides by \<^verbatim>\<open>avg_doc_length\<close> without a test (see
  \<open>score_query_unguarded\<close>), but an index that \<^verbatim>\<open>build_index\<close> returns with average
  length zero (the empty corpus, or documents without a single token) has no term, so
  every query token is skipped: the call returns the empty score mapping and raises
  nothing.
\<close>

theorem score_query_zero_avg_length:
  assumes "build_index STOPWORDS stemmer corpus use_full_text
             = (inverted_index, doc_lengths, avg_doc_length, num_docs)"
    and "avg_doc_length = 0"
  shows "score_query query_tokens inverted_index doc_lengths avg_doc_length (int num_docs) = Inr []"
  using build_index_zero_avg[OF assms] by (simp add: score_query_def terms_loop_empty_index)

theorem score_query_zero_avg_length_witness:
  "build_index {''the''} None [] True = ([], [], 0, 0)
   \<and> score_query [''fox''] [] [] 0 (int 0) = Inr []
   \<and> build_index {''the''} None [\<lparr> d_id = ''D1'', d_title = ''a'', d_text = ''the'' \<rparr>] True
        = ([], [(''D1'', 0)], 0, 1)
   \<and> score_query [''fox''] [] [(''D1'', 0)] 0 (int 1) = Inr []"
  using score_query_zero_avg_length [of "{''the''}" None "[]" True "[]" "[]" 0 0 "[''fox'']"]
    score_query_zero_avg_length
      [of "{''the''}" None "[\<lparr> d_id = ''D1'', d_title = ''a'', d_text = ''the'' \<rparr>]" True
          "[]" "[(''D1'', 0)]" 0 1 "[''fox'']"]
  by (simp add: build_index_def index_doc_def preprocess_def re_sub_non_alnum_def py_split_def
        lower_char_def is_space_def is_lower_alnum_def Let_def less_eq_char_def Counter_def)

lemma score_query_unguarded:
  "score_query [''fox''] [(''fox'', [(''D1'', 1)])] [(''D1'', 0)] 0 1 = Inl ZeroDivisionError"
  by (simp add: score_query_def dict_get_def idf_def truediv_def math_log_def)

text \<open>
  Claim C6. For a document frequency \<open>df\<close> with \<open>1 \<le> df \<le> N\<close>, line 125 raises nothing
  and the idf it computes, \<open>ln ((N - df + 0.5) / (df + 0.5) + 1)\<close>, is not negative.
\<close>

theorem idf_nonnegative:
  assumes "1 \<le> df" and "int df \<le> N"
  shows "idf N df = Inr (ln ((real_of_int N - real df + 5 / 10) / (real df + 5 / 10) + 1))
         \<and> 0 \<le> ln ((real_of_int N - real df + 5 / 10) / (real df + 5 / 10) + 1)"
proof -
  have le: "real df \<le> real_of_int N" using assms(2) by linarith
  have q: "0 \<le> (real_of_int N - real df + 5 / 10) / (real df + 5 / 10)"
    using le by simp
  then have pos: "1 \<le> (real_of_int N - real df + 5 / 10) / (real df + 5 / 10) + 1" by simp
  have "idf N df = Inr (ln ((real_of_int N - real df + 5 / 10) / (real df + 5 / 10) + 1))"
    using pos by (simp add: idf_def truediv_def math_log_def)
  moreover have "0 \<le> ln ((real_of_int N - real df + 5 / 10) / (real df + 5 / 10) + 1)"
    using pos by simp
  ultimately show ?thesis by simp
qed

theorem idf_nonnegative_witness:
  "(1::nat) \<le> 3 \<and> int 3 \<le> 3 \<and> idf 3 3 = Inr (ln (8 / 7)) \<and> 0 \<le> ln (8 / 7 :: real)"
  using idf_nonnegative [of 3 3] by simp

section \<open>Properties of ranking\<close>

lemma rank_results_ranks:
  "map (\<lambda>(q, d, r, s). r) (rank_results q_id doc_scores)
     = [1 ..< Suc (length (sorted_docs_of doc_scores))]"
proof -
  have "map (\<lambda>(q, d, r, s). r) (rank_results q_id doc_scores)
          = map fst (enumerate 1 (sorted_docs_of doc_scores))"
    by (simp add: rank_results_def split_def comp_def)
  then show ?thesis by simp
qed

lemma rank_results_docs:
  "map (\<lambda>(q, d, r, s). (d, s)) (rank_results q_id doc_scores) = sorted_docs_of doc_scores"
proof -
  have "map (\<lambda>(q, d, r, s). (d, s)) (rank_results q_id doc_scores)
          = map snd (enumerate 1 (sorted_docs_of doc_scores))"
    by (simp add: rank_results_def split_def comp_def)
  then show ?thesis by simp
qed

lemma sorted_docs_desc:
  "sorted_wrt (\<lambda>x y. snd x \<ge> snd y) (sort_key (\<lambda>x. - snd x) (doc_scores :: (string, real) dict))"
  using sorted_sort_key[of "\<lambda>x. - snd x" doc_scores] by (simp add: sorted_map)

text \<open>
  Claim C7. The entries written for a query carry the ranks \<open>1, 2, 3, \<dots>\<close> in output
  order, there are at most 100 of them (all of them when fewer documents were scored),
  their scores are in descending order, and they are the first 100 entries of a
  rearrangement of the scored documents that is sorted by descending score.
\<close>

theorem rank_results_sorted_truncated_dense:
  "map (\<lambda>(q, d, r, s). r) (rank_results q_id doc_scores)
     = [1 ..< Suc (length (rank_results q_id doc_scores))]
   \<and> length (rank_results q_id doc_scores) = min 100 (length doc_scores)
   \<and> sorted_wrt (\<lambda>x y. x \<ge> y) (map (\<lambda>(q, d, r, s). s) (rank_results q_id doc_scores))
   \<and> (\<exists>ys. mset ys = mset doc_scores
           \<and> sorted_wrt (\<lambda>x y. snd x \<ge> snd y) ys
           \<and> map (\<lambda>(q, d, r, s). (d, s)) (rank_results q_id doc_scores) = take 100 ys)"
proof -
  have len: "length (rank_results q_id doc_scores) = min 100 (length doc_scores)"
    by (simp add: rank_results_def sorted_docs_of_def min.commute)
  have len2: "length (sorted_docs_of doc_scores) = length (rank_results q_id doc_scores)"
    by (simp add: rank_results_def)
  have ranks: "map (\<lambda>(q, d, r, s). r) (rank_results q_id doc_scores)
     = [1 ..< Suc (length (rank_results q_id doc_scores))]"
    using rank_results_ranks[of q_id doc_scores] len2 by simp
  have "sorted_wrt (\<lambda>x y. snd x \<ge> snd y) (sorted_docs_of doc_scores)"
    unfolding sorted_docs_of_def using sorted_docs_desc by (rule sorted_wrt_take)
  then have "sorted_wrt (\<lambda>x y. x \<ge> y) (map snd (sorted_docs_of doc_scores))"
    by (simp add: sorted_wrt_map)
  moreover have "map (\<lambda>(q, d, r, s). s) (rank_results q_id doc_scores) = map snd (sorted_docs_of doc_scores)"
    using arg_cong[OF rank_results_docs[of q_id doc_scores], of "map snd"]
    by (simp add: split_def comp_def)
  ultimately have desc: "sorted_wrt (\<lambda>x y. x \<ge> y) (map (\<lambda>(q, d, r, s). s) (rank_results q_id doc_scores))"
    by simp
  have perm: "\<exists>ys. mset ys = mset doc_scores
           \<and> sorted_wrt (\<lambda>x y. snd x \<ge> snd y) ys
           \<and> map (\<lambda>(q, d, r, s). (d, s)) (rank_results q_id doc_scores) = take 100 ys"
    using sorted_docs_desc[of doc_scores] rank_results_docs[of q_id doc_scores]
    by (intro exI[of _ "sort_key (\<lambda>x. - snd x) doc_scores"]) (simp add: sorted_docs_of_def)
  show ?thesis using ranks len desc perm by blast
qed

theorem rank_results_sorted_truncated_dense_witness:
  "rank_results ''1'' [(''a'', 1), (''b'', 3), (''c'', 1), (''d'', 2)]
     = [(''1'', ''b'', 1, 3), (''1'', ''d'', 2, 2), (''1'', ''a'', 3, 1), (''1'', ''c'', 4, 1)]"
  using rank_results_sorted_truncated_dense [of "''1''" "[(''a'', 1), (''b'', 3), (''c'', 1), (''d'', 2)]"]
  by (simp add: rank_results_def sorted_docs_of_def)

end
